theory Spec2Isabelle
  imports Main "HOL-Library.AList" "HOL-Library.Multiset" "HOL-Library.Sublist"
begin

section \<open>Citation aggregation: api/src/queries.ts\<close>

subsection \<open>Data\<close>

text \<open>
  The five geometry columns are JavaScript numbers that the code only stores and compares,
  never computes with. They are kept abstract as a type parameter \<open>'n\<close>: a value of \<open>'n\<close>
  stands for a number up to the comparison lodash's \<open>isEqual\<close> applies to primitives
  (\<open>===\<close>, or both \<open>NaN\<close>), so HOL equality on \<open>'n\<close> is that comparison.
  The field \<open>top\<close> of the source is written \<open>top'\<close>.
\<close>

record 'n BoundingBox =
  page :: 'n
  left :: 'n
  top' :: 'n
  width :: 'n
  height :: 'n

record 'n Citation =
  bounding_boxes :: "'n BoundingBox list"
  papers :: "string list"

text \<open>
  A row of the join: the five geometry columns and the two identifier columns
  \<open>citation_id\<close> and \<open>cited_paper_id\<close>. \<open>citation_id\<close> is used as a property key, so the
  model holds it as the string the key coerces to.
\<close>

record 'n Row = "'n BoundingBox" +
  citation_id :: string
  cited_paper_id :: string

datatype error = TypeError

text \<open>
  \<open>const citations: CitationsById = {}\<close> is a plain object. Its own properties are kept in
  creation order. Its prototype slot is \<open>None\<close> while it is still \<open>Object.prototype\<close>, and
  \<open>Some c\<close> once an assignment to the key \<open>__proto__\<close> has replaced it by the object \<open>c\<close>.
\<close>

record 'n CitationsById =
  prototype :: "'n Citation option"
  properties :: "(string \<times> 'n Citation) list"

subsection \<open>Array and object primitives\<close>

fun indexOf_from :: "int \<Rightarrow> 'a list \<Rightarrow> 'a \<Rightarrow> int" where
  "indexOf_from k [] x = - 1"
| "indexOf_from k (y # ys) x = (if y = x then k else indexOf_from (k + 1) ys x)"

definition indexOf :: "'a list \<Rightarrow> 'a \<Rightarrow> int" where
  "indexOf xs x = indexOf_from 0 xs x"

definition push :: "'a list \<Rightarrow> 'a \<Rightarrow> 'a list" where
  "push xs x = xs @ [x]"

definition some :: "'a list \<Rightarrow> ('a \<Rightarrow> bool) \<Rightarrow> bool" where
  "some xs P = list_ex P xs"

text \<open>
  \<open>_.isEqual\<close> on two object literals with the same five keys compares them key by key.
\<close>

definition isEqual :: "'n BoundingBox \<Rightarrow> 'n BoundingBox \<Rightarrow> bool" where
  "isEqual b box \<longleftrightarrow>
     page b = page box \<and> left b = left box \<and> top' b = top' box \<and>
     width b = width box \<and> height b = height box"

text \<open>
  \<open>citations.hasOwnProperty(key)\<close> looks the method up on the object first. Once the loop has
  stored a citation under the key \<open>hasOwnProperty\<close>, that citation shadows the inherited
  method and the call throws a TypeError.
\<close>

definition hasOwnProperty :: "'n CitationsById \<Rightarrow> string \<Rightarrow> error + bool" where
  "hasOwnProperty obj key =
     (if map_of (properties obj) ''hasOwnProperty'' \<noteq> None then Inl TypeError
      else Inr (map_of (properties obj) key \<noteq> None))"

text \<open>
  \<open>citations[key] = v\<close>: the key \<open>__proto__\<close> runs the inherited setter, which replaces the
  prototype and creates no own property. Any other key overwrites the own property in place
  or creates it after the existing ones.
\<close>

definition assign :: "'n CitationsById \<Rightarrow> string \<Rightarrow> 'n Citation \<Rightarrow> 'n CitationsById" where
  "assign obj key v =
     (if key = ''__proto__'' then obj\<lparr>prototype := Some v\<rparr>
      else obj\<lparr>properties := AList.update key v (properties obj)\<rparr>)"

text \<open>
  \<open>citations[key]\<close>, for the keys the loop reads: an own property, or the replaced prototype
  under \<open>__proto__\<close>.
\<close>

definition lookup :: "'n CitationsById \<Rightarrow> string \<Rightarrow> 'n Citation option" where
  "lookup obj key =
     (if key = ''__proto__'' then prototype obj else map_of (properties obj) key)"

text \<open>
  \<open>Object.values\<close> lists the own properties whose key is an array index (a canonical
  decimal numeral below \<open>2^32 - 1\<close>) in ascending numeric order, then the others in creation
  order.
\<close>

definition is_digit :: "char \<Rightarrow> bool" where
  "is_digit c \<longleftrightarrow> 48 \<le> (of_char c :: nat) \<and> (of_char c :: nat) \<le> 57"

definition decimal_value :: "string \<Rightarrow> nat" where
  "decimal_value s = foldl (\<lambda>acc c. 10 * acc + (of_char c - 48)) 0 s"

definition is_array_index :: "string \<Rightarrow> bool" where
  "is_array_index s \<longleftrightarrow>
     s \<noteq> [] \<and> list_all is_digit s \<and> (hd s \<noteq> CHR ''0'' \<or> length s = 1) \<and>
     decimal_value s < 2 ^ 32 - 1"

definition Object_values :: "'n CitationsById \<Rightarrow> 'n Citation list" where
  "Object_values obj =
     map snd (sort_key (\<lambda>p. decimal_value (fst p))
                (filter (\<lambda>p. is_array_index (fst p)) (properties obj)))
     @ map snd (filter (\<lambda>p. \<not> is_array_index (fst p)) (properties obj))"

subsection \<open>add_paper, add_bounding_box and the loop of getCitationsForPaper\<close>

definition add_paper :: "'n Citation \<Rightarrow> string \<Rightarrow> 'n Citation" where
  "add_paper citation s2Id =
     (if indexOf (papers citation) s2Id = - 1
      then citation\<lparr>papers := push (papers citation) s2Id\<rparr>
      else citation)"

definition add_bounding_box :: "'n Citation \<Rightarrow> 'n BoundingBox \<Rightarrow> 'n Citation" where
  "add_bounding_box citation box =
     (if \<not> some (bounding_boxes citation) (\<lambda>b. isEqual b box)
      then citation\<lparr>bounding_boxes := push (bounding_boxes citation) box\<rparr>
      else citation)"

text \<open>
  One iteration of \<open>for (const row of rows)\<close>. The citation object under the key is mutated
  in place by the two helpers; the model writes the updated citation back under the same key.
\<close>

definition loop_body :: "'n CitationsById \<Rightarrow> 'n Row \<Rightarrow> error + 'n CitationsById" where
  "loop_body citations row =
     (let key = citation_id row in
      case hasOwnProperty citations key of
        Inl e \<Rightarrow> Inl e
      | Inr present \<Rightarrow>
          (let citations1 =
                 (if \<not> present
                  then assign citations key \<lparr>bounding_boxes = [], papers = []\<rparr>
                  else citations);
               s2Id = cited_paper_id row;
               bounding_box = \<lparr>page = page row, left = left row, top' = top' row,
                               width = width row, height = height row\<rparr>
           in case lookup citations1 key of
                None \<Rightarrow> Inl TypeError
              | Some citation \<Rightarrow>
                  Inr (assign citations1 key
                         (add_bounding_box (add_paper citation s2Id) bounding_box))))"

fun citations_loop :: "'n CitationsById \<Rightarrow> 'n Row list \<Rightarrow> error + 'n CitationsById" where
  "citations_loop citations [] = Inr citations"
| "citations_loop citations (row # rows) =
     (case loop_body citations row of
        Inl e \<Rightarrow> Inl e
      | Inr citations' \<Rightarrow> citations_loop citations' rows)"

text \<open>
  \<open>getCitationsForPaper\<close> after the query has delivered its rows: the accumulator starts as
  the empty object, the loop runs over the rows in order, and the result is
  \<open>Object.values(citations)\<close>.
\<close>

definition aggregate :: "'n Row list \<Rightarrow> error + 'n CitationsById" where
  "aggregate rows = citations_loop \<lparr>prototype = None, properties = []\<rparr> rows"

definition getCitationsForPaper :: "'n Row list \<Rightarrow> error + 'n Citation list" where
  "getCitationsForPaper rows =
     (case aggregate rows of
        Inl e \<Rightarrow> Inl e
      | Inr citations \<Rightarrow> Inr (Object_values citations))"

section \<open>Paper metadata: api/src/s2-api.ts\<close>

subsection \<open>Data\<close>

text \<open>
  Modelled from the spec: the payload types \<open>S2ApiAuthor\<close> and \<open>S2ApiPaper\<close> of
  \<open>types/s2-api\<close>, whose declarations are missing. The fields are the response fields the
  specification lists (title, authors with a name each, abstract, url, venue, and the year
  as a string); they are the fields \<open>getPaper\<close> reads, with the types its \<open>Paper\<close> record
  and \<open>parseInt\<close> require of them.
\<close>

record S2ApiAuthor =
  name :: string

record S2ApiPaper =
  title :: string
  authors :: "S2ApiAuthor list"
  abstract :: "string option"
  url :: string
  venue :: "string option"
  year :: string

text \<open>
  The payload of a response is a paper, or anything else. \<open>OtherData\<close> stands for a payload
  that carries no \<open>authors\<close> array (an error object, a string, \<open>null\<close>): evaluating
  \<open>data.authors.map\<close> on it throws a TypeError. The type guard \<open>isS2ApiResponseSuccess\<close>,
  also declared in \<open>types/s2-api\<close>, is a parameter of \<open>getPaper\<close> and \<open>getPapers\<close>.
\<close>

datatype S2ApiResponse = PaperData S2ApiPaper | OtherData

record AxiosResponse =
  status :: nat
  data :: S2ApiResponse

text \<open>
  \<open>axios.get\<close> either rejects (a transport error, or a status outside 2xx) or resolves
  with a response.
\<close>

datatype axios_outcome = Rejected | Resolved AxiosResponse

text \<open>
  The Number values that \<open>parseInt\<close> can yield: \<open>NaN\<close>, a finite double whose value is an
  integer, or an infinity. \<open>Num n\<close> is the double whose value is exactly the integer \<open>n\<close>;
  both zeros are \<open>Num 0\<close>.
\<close>

datatype number = NaN | Num int | PosInfinity | NegInfinity

record Paper =
  s2Id :: string
  title :: string
  authors :: string
  abstract :: "string option"
  url :: string
  venue :: "string option"
  year :: "number option"

definition SEMANTIC_SCHOLAR_API_URL :: string where
  "SEMANTIC_SCHOLAR_API_URL = ''http://api.semanticscholar.org/v1''"

subsection \<open>parseInt, the || operator and Array.prototype.join\<close>

text \<open>
  \<open>parseInt(string)\<close> without a radix: leading white space is dropped, a sign is read, a
  prefix \<open>0x\<close> or \<open>0X\<close> switches to radix 16, and the longest run of digits of the radix is
  evaluated; an empty run gives \<open>NaN\<close>. Strings are lists of code units below 256.
\<close>

definition is_white_space :: "char \<Rightarrow> bool" where
  "is_white_space c \<longleftrightarrow> (of_char c :: nat) \<in> {9, 10, 11, 12, 13, 32, 160}"

definition digit_of :: "char \<Rightarrow> nat option" where
  "digit_of c =
     (let n = (of_char c :: nat) in
      if 48 \<le> n \<and> n \<le> 57 then Some (n - 48)
      else if 97 \<le> n \<and> n \<le> 122 then Some (n - 87)
      else if 65 \<le> n \<and> n \<le> 90 then Some (n - 55)
      else None)"

definition is_radix_digit :: "nat \<Rightarrow> char \<Rightarrow> bool" where
  "is_radix_digit R c = (case digit_of c of None \<Rightarrow> False | Some d \<Rightarrow> d < R)"

definition radix_value :: "nat \<Rightarrow> string \<Rightarrow> nat" where
  "radix_value R Z = foldl (\<lambda>acc c. R * acc + the (digit_of c)) 0 Z"

text \<open>
  The Number for a mathematical integer of magnitude \<open>m\<close>: the nearest double, ties to the
  even significand. Below \<open>2^53\<close> every integer is a double. From there on the 53 leading
  bits are kept and the rest is rounded; a magnitude that rounds to \<open>2^1024\<close> or more
  becomes an infinity.
\<close>

fun bit_length :: "nat \<Rightarrow> nat" where
  "bit_length n = (if n = 0 then 0 else Suc (bit_length (n div 2)))"

definition nearest_double :: "nat \<Rightarrow> nat" where
  "nearest_double m =
     (if m < 2 ^ 53 then m
      else let e = bit_length m - 53;
               q = m div 2 ^ e;
               r = m mod 2 ^ e;
               h = 2 ^ (e - 1)
           in (if h < r \<or> (r = h \<and> odd q) then q + 1 else q) * 2 ^ e)"

definition to_Number :: "int \<Rightarrow> nat \<Rightarrow> number" where
  "to_Number sign m =
     (let v = nearest_double m in
      if 2 ^ 1024 \<le> v then (if sign < 0 then NegInfinity else PosInfinity)
      else Num (sign * int v))"

text \<open>
  The value of the digits is rounded as a whole. (An implementation may replace the
  decimal digits after the twentieth significant one by zeros before it rounds.)
\<close>

definition parseInt :: "string \<Rightarrow> number" where
  "parseInt string =
     (let S = dropWhile is_white_space string;
          sign = (if S \<noteq> [] \<and> hd S = CHR ''-'' then - 1 else 1 :: int);
          S = (if S \<noteq> [] \<and> (hd S = CHR ''+'' \<or> hd S = CHR ''-'') then tl S else S);
          hex = (2 \<le> length S \<and> (take 2 S = ''0x'' \<or> take 2 S = ''0X''));
          R = (if hex then 16 else 10);
          S = (if hex then drop 2 S else S);
          Z = takeWhile (is_radix_digit R) S
      in if Z = [] then NaN else to_Number sign (radix_value R Z))"

text \<open>\<open>v || null\<close> keeps \<open>v\<close> when it is truthy; \<open>NaN\<close> and zero are falsy.\<close>

definition truthy :: "number \<Rightarrow> bool" where
  "truthy v =
     (case v of NaN \<Rightarrow> False | Num n \<Rightarrow> n \<noteq> 0 | PosInfinity \<Rightarrow> True | NegInfinity \<Rightarrow> True)"

definition or_null :: "number \<Rightarrow> number option" where
  "or_null v = (if truthy v then Some v else None)"

text \<open>
  \<open>Array.prototype.join\<close>: the separator is added before every element but the first.
\<close>

fun join_loop :: "nat \<Rightarrow> string \<Rightarrow> string list \<Rightarrow> string \<Rightarrow> string" where
  "join_loop k R [] sep = R"
| "join_loop k R (e # es) sep = join_loop (k + 1) ((if 0 < k then R @ sep else R) @ e) es sep"

definition join :: "string list \<Rightarrow> string \<Rightarrow> string" where
  "join xs sep = join_loop 0 [] xs sep"

subsection \<open>getPaper and getPapers\<close>

text \<open>
  \<open>getPaper\<close> takes the type guard and the behaviour of \<open>axios.get\<close> for this request, a
  function from the requested URL to the outcome. A rejected request is caught and gives
  \<open>undefined\<close> (\<open>None\<close>); so does a response the guard refuses. The call to
  \<open>console.error\<close> is not modelled.
\<close>

definition getPaper ::
  "(AxiosResponse \<Rightarrow> bool) \<Rightarrow> (string \<Rightarrow> axios_outcome) \<Rightarrow> string \<Rightarrow> error + Paper option"
  where
  "getPaper isS2ApiResponseSuccess axios_get s2Id' =
     (case axios_get (SEMANTIC_SCHOLAR_API_URL @ ''/paper/'' @ s2Id') of
        Rejected \<Rightarrow> Inr None
      | Resolved response \<Rightarrow>
          if isS2ApiResponseSuccess response then
            (case data response of
               OtherData \<Rightarrow> Inl TypeError
             | PaperData d \<Rightarrow>
                 (let year' = or_null (parseInt (S2ApiPaper.year d)) in
                  Inr (Some \<lparr>s2Id = s2Id',
                             title = S2ApiPaper.title d,
                             authors = join (map name (S2ApiPaper.authors d)) '', '',
                             abstract = S2ApiPaper.abstract d,
                             url = S2ApiPaper.url d,
                             venue = S2ApiPaper.venue d,
                             year = year'\<rparr>)))
          else Inr None)"

text \<open>
  \<open>Promise.all\<close> fulfils with the results in the order of its input, and rejects as soon
  as one of the promises rejects.
\<close>

fun Promise_all :: "(error + 'a) list \<Rightarrow> error + 'a list" where
  "Promise_all [] = Inr []"
| "Promise_all (Inl e # ps) = Inl e"
| "Promise_all (Inr x # ps) =
     (case Promise_all ps of Inl e \<Rightarrow> Inl e | Inr xs \<Rightarrow> Inr (x # xs))"

text \<open>
  \<open>getPapers\<close>: one request per position of \<open>s2Ids\<close>. The network is a function from the
  position of the request and its URL to the outcome, so that two requests for the same
  identifier may end differently.
\<close>

definition getPapers ::
  "(AxiosResponse \<Rightarrow> bool) \<Rightarrow> (nat \<Rightarrow> string \<Rightarrow> axios_outcome) \<Rightarrow> string list
     \<Rightarrow> error + Paper option list" where
  "getPapers isS2ApiResponseSuccess axios_get s2Ids =
     (case Promise_all
             (map (\<lambda>(i, s2Id'). getPaper isS2ApiResponseSuccess (axios_get i) s2Id')
                (enumerate 0 s2Ids)) of
        Inl e \<Rightarrow> Inl e
      | Inr results \<Rightarrow> Inr (filter (\<lambda>paper. paper \<noteq> None) results))"

section \<open>Specification vocabulary\<close>

text \<open>The elements of a list in order of first appearance, each once.\<close>

fun first_occurrences :: "'a list \<Rightarrow> 'a list" where
  "first_occurrences [] = []"
| "first_occurrences (x # xs) = x # first_occurrences (removeAll x xs)"

text \<open>The bounding box a row supplies, and the rows of one citation.\<close>

definition row_box :: "'n Row \<Rightarrow> 'n BoundingBox" where
  "row_box row = \<lparr>page = page row, left = left row, top' = top' row,
                   width = width row, height = height row\<rparr>"

definition rows_of :: "string \<Rightarrow> 'n Row list \<Rightarrow> 'n Row list" where
  "rows_of k rows = filter (\<lambda>r. citation_id r = k) rows"

text \<open>
  The aggregate of citation \<open>k\<close>: the papers and the boxes of its rows, in order of first
  appearance.
\<close>

definition citation_of :: "string \<Rightarrow> 'n Row list \<Rightarrow> 'n Citation" where
  "citation_of k rows =
     \<lparr>bounding_boxes = first_occurrences (map row_box (rows_of k rows)),
      papers = first_occurrences (map cited_paper_id (rows_of k rows))\<rparr>"

definition citations_of :: "'n Row list \<Rightarrow> 'n CitationsById" where
  "citations_of rows =
     \<lparr>prototype = None,
      properties = map (\<lambda>k. (k, citation_of k rows))
                     (first_occurrences (map citation_id rows))\<rparr>"

text \<open>
  The two property names at which a plain object does not behave as a dictionary in the
  loop of \<open>getCitationsForPaper\<close>.
\<close>

definition ordinary_key :: "string \<Rightarrow> bool" where
  "ordinary_key k \<longleftrightarrow> k \<noteq> ''__proto__'' \<and> k \<noteq> ''hasOwnProperty''"

definition ordinary_rows :: "'n Row list \<Rightarrow> bool" where
  "ordinary_rows rows = list_all (\<lambda>r. ordinary_key (citation_id r)) rows"

text \<open>
  A citation without duplicates: no paper identifier twice, no two boxes equal on all
  five fields.
\<close>

fun no_equal_boxes :: "'n BoundingBox list \<Rightarrow> bool" where
  "no_equal_boxes [] = True"
| "no_equal_boxes (b # bs) = (\<not> some bs (\<lambda>b'. isEqual b b') \<and> no_equal_boxes bs)"

definition no_duplicates :: "'n Citation \<Rightarrow> bool" where
  "no_duplicates c \<longleftrightarrow> distinct (papers c) \<and> no_equal_boxes (bounding_boxes c)"

text \<open>\<open>c'\<close> is \<open>c\<close> with elements appended to its two lists.\<close>

definition appended :: "'n Citation \<Rightarrow> 'n Citation \<Rightarrow> bool" where
  "appended c c' \<longleftrightarrow>
     prefix (papers c) (papers c') \<and> prefix (bounding_boxes c) (bounding_boxes c')"

definition citations_invariant :: "'n CitationsById \<Rightarrow> bool" where
  "citations_invariant s \<longleftrightarrow>
     distinct (map fst (properties s)) \<and> list_all (\<lambda>p. no_duplicates (snd p)) (properties s)"

text \<open>Every entry of \<open>s\<close> is still an entry of \<open>s'\<close>, under the same key, appended to.\<close>

definition persists :: "'n CitationsById \<Rightarrow> 'n CitationsById \<Rightarrow> bool" where
  "persists s s' =
     list_all (\<lambda>p. case map_of (properties s') (fst p) of
                      None \<Rightarrow> False
                    | Some c' \<Rightarrow> appended (snd p) c')
       (properties s)"

text \<open>The display string of a list of names: comma and space between neighbours.\<close>

fun comma_separated :: "string list \<Rightarrow> string" where
  "comma_separated [] = []"
| "comma_separated [x] = x"
| "comma_separated (x # y # ys) = x @ '', '' @ comma_separated (y # ys)"

text \<open>
  A request resolves when \<open>axios.get\<close> delivers a response that the type guard accepts;
  it fails when the request is rejected or the guard refuses the response.
\<close>

definition resolves :: "(AxiosResponse \<Rightarrow> bool) \<Rightarrow> (string \<Rightarrow> axios_outcome) \<Rightarrow> string \<Rightarrow> bool"
  where
  "resolves isS2ApiResponseSuccess axios_get s2Id' =
     (case axios_get (SEMANTIC_SCHOLAR_API_URL @ ''/paper/'' @ s2Id') of
        Rejected \<Rightarrow> False
      | Resolved response \<Rightarrow> isS2ApiResponseSuccess response)"


text \<open>
  The contract of the type guard \<open>response is AxiosResponse<S2ApiPaper>\<close>: an accepted
  response carries a paper payload.
\<close>

definition type_guard :: "(AxiosResponse \<Rightarrow> bool) \<Rightarrow> bool" where
  "type_guard isS2ApiResponseSuccess \<longleftrightarrow>
     (\<forall>response. isS2ApiResponseSuccess response \<longrightarrow> (\<exists>d. data response = PaperData d))"

text \<open>The request that \<open>getPapers\<close> makes for one position of its input.\<close>

definition request :: "(AxiosResponse \<Rightarrow> bool) \<Rightarrow> (nat \<Rightarrow> string \<Rightarrow> axios_outcome)
    \<Rightarrow> nat \<times> string \<Rightarrow> error + Paper option" where
  "request g net = (\<lambda>(i, s2Id'). getPaper g (net i) s2Id')"

subsection \<open>Sample inputs\<close>

text \<open>
  A payload with a given year string, a type guard that accepts exactly the paper payloads,
  and a network that rejects the second request, answers the third without a paper, and
  answers every other request with the payload of the given year string.
\<close>

definition sample_data :: "string \<Rightarrow> S2ApiPaper" where
  "sample_data y =
     \<lparr>S2ApiPaper.title = ''T'',
      authors = [\<lparr>name = ''A. Author''\<rparr>, \<lparr>name = ''B. Writer''\<rparr>],
      abstract = None, url = ''u'', venue = Some ''V'', year = y\<rparr>"

definition sample_guard :: "AxiosResponse \<Rightarrow> bool" where
  "sample_guard response = (case data response of PaperData d \<Rightarrow> True | OtherData \<Rightarrow> False)"


definition sample_network :: "string \<Rightarrow> nat \<Rightarrow> string \<Rightarrow> axios_outcome" where
  "sample_network y i u =
     (if i = 1 then Rejected
      else if i = 2 then Resolved \<lparr>status = 200, data = OtherData\<rparr>
      else Resolved \<lparr>status = 200, data = PaperData (sample_data y)\<rparr>)"

section \<open>Properties of the aggregation\<close>

subsection \<open>The helpers and the loop\<close>

lemma indexOf_from_absent: "0 \<le> k \<Longrightarrow> indexOf_from k xs x = - 1 \<longleftrightarrow> x \<notin> set xs"
  by (induction xs arbitrary: k) auto

lemma indexOf_absent: "indexOf xs x = - 1 \<longleftrightarrow> x \<notin> set xs"
  by (simp add: indexOf_def indexOf_from_absent)

lemma papers_add_paper:
  "papers (add_paper c p) = (if p \<in> set (papers c) then papers c else papers c @ [p])"
  by (simp add: add_paper_def indexOf_absent push_def)

lemma boxes_add_paper: "bounding_boxes (add_paper c p) = bounding_boxes c"
  by (simp add: add_paper_def)

lemma isEqual_iff: "isEqual b box \<longleftrightarrow> b = box"
  by (cases b, cases box) (auto simp: isEqual_def)

lemma some_isEqual: "some bs (\<lambda>b. isEqual b box) \<longleftrightarrow> box \<in> set bs"
  by (auto simp: some_def list_ex_iff isEqual_iff)

lemma boxes_add_bounding_box:
  "bounding_boxes (add_bounding_box c box) =
     (if box \<in> set (bounding_boxes c) then bounding_boxes c else bounding_boxes c @ [box])"
  by (simp add: add_bounding_box_def some_isEqual push_def)

lemma papers_add_bounding_box: "papers (add_bounding_box c box) = papers c"
  by (simp add: add_bounding_box_def)

lemma set_first_occurrences [simp]: "set (first_occurrences xs) = set xs"
  by (induction xs rule: first_occurrences.induct) auto

lemma distinct_first_occurrences [simp]: "distinct (first_occurrences xs)"
  by (induction xs rule: first_occurrences.induct) auto

lemma first_occurrences_snoc:
  "first_occurrences (xs @ [x]) =
     (if x \<in> set xs then first_occurrences xs else first_occurrences xs @ [x])"
  by (induction xs rule: first_occurrences.induct) auto

lemma citation_of_snoc_same:
  "citation_id r = k \<Longrightarrow>
   citation_of k (rows @ [r]) =
     add_bounding_box (add_paper (citation_of k rows) (cited_paper_id r)) (row_box r)"
  by (rule Citation.equality)
     (simp_all add: citation_of_def rows_of_def first_occurrences_snoc
        papers_add_paper boxes_add_paper boxes_add_bounding_box papers_add_bounding_box)

lemma citation_of_snoc_other:
  "citation_id r \<noteq> k \<Longrightarrow> citation_of k (rows @ [r]) = citation_of k rows"
  by (simp add: citation_of_def rows_of_def)

lemma citation_of_absent:
  "k \<notin> citation_id ` set rows \<Longrightarrow> citation_of k rows = \<lparr>bounding_boxes = [], papers = []\<rparr>"
proof -
  assume "k \<notin> citation_id ` set rows"
  then have "rows_of k rows = []" by (auto simp: rows_of_def filter_empty_conv)
  then show ?thesis by (simp add: citation_of_def)
qed

lemma citations_loop_snoc:
  "citations_loop c (rows @ [r]) =
     (case citations_loop c rows of Inl e \<Rightarrow> Inl e | Inr c' \<Rightarrow> loop_body c' r)"
  by (induction rows arbitrary: c) (simp_all split: sum.splits)


lemma update_tabulated:
  "distinct ks \<Longrightarrow> AList.update k v (map (\<lambda>j. (j, f j)) ks) =
     (if k \<in> set ks then map (\<lambda>j. (j, if j = k then v else f j)) ks
      else map (\<lambda>j. (j, f j)) ks @ [(k, v)])"
  by (induction ks) auto

lemma map_of_tabulated:
  "map_of (map (\<lambda>j. (j, f j)) ks) k = (if k \<in> set ks then Some (f k) else None)"
  by (induction ks) auto

lemma update_append_fresh:
  "k \<notin> fst ` set al \<Longrightarrow> AList.update k v' (al @ [(k, v)]) = al @ [(k, v')]"
  by (induction al) auto

lemma loop_body_citations_of:
  assumes k: "ordinary_key (citation_id r)"
    and ks: "ordinary_rows rows"
  shows "loop_body (citations_of rows) r = Inr (citations_of (rows @ [r]))"
proof -
  let ?k = "citation_id r"
  let ?ks = "first_occurrences (map citation_id rows)"
  have no_shadow: "''hasOwnProperty'' \<notin> set ?ks"
    using ks by (auto simp: ordinary_rows_def ordinary_key_def list_all_iff)
  have not_proto: "?k \<noteq> ''__proto__''"
    using k by (simp add: ordinary_key_def)
  have box: "\<lparr>page = page r, left = left r, top' = top' r, width = width r, height = height r\<rparr>
             = row_box r"
    by (simp add: row_box_def)
  have other: "\<And>j. j \<noteq> ?k \<Longrightarrow> citation_of j (rows @ [r]) = citation_of j rows"
    by (simp add: citation_of_snoc_other)
  show ?thesis
  proof (cases "?k \<in> set ?ks")
    case True
    with no_shadow not_proto show ?thesis
      by (auto simp add: loop_body_def hasOwnProperty_def citations_of_def map_of_tabulated
            lookup_def assign_def box update_tabulated first_occurrences_snoc Let_def other
            citation_of_snoc_same [symmetric])
  next
    case False
    then have absent: "?k \<notin> citation_id ` set rows" by simp
    let ?al = "map (\<lambda>j. (j, citation_of j rows)) ?ks"
    let ?empty = "\<lparr>bounding_boxes = [], papers = []\<rparr> :: 'a Citation"
    have fresh: "?k \<notin> fst ` set ?al" using False by auto
    have has: "hasOwnProperty (citations_of rows) ?k = Inr False"
      using False no_shadow by (simp add: hasOwnProperty_def citations_of_def map_of_tabulated)
    have created: "assign (citations_of rows) ?k ?empty
                   = \<lparr>prototype = None, properties = ?al @ [(?k, ?empty)]\<rparr>"
      using not_proto False by (simp add: assign_def citations_of_def update_tabulated)
    have found: "lookup \<lparr>prototype = None, properties = ?al @ [(?k, ?empty)]\<rparr> ?k = Some ?empty"
      using not_proto False by (simp add: lookup_def map_add_def map_of_tabulated)
    have written: "assign \<lparr>prototype = None, properties = ?al @ [(?k, ?empty)]\<rparr> ?k c
                   = \<lparr>prototype = None, properties = ?al @ [(?k, c)]\<rparr>" for c
      using not_proto fresh by (simp add: assign_def update_append_fresh)
    have same: "?al = map (\<lambda>j. (j, citation_of j (rows @ [r]))) ?ks"
    proof (rule map_cong [OF refl])
      fix j assume "j \<in> set ?ks"
      with False have "citation_id r \<noteq> j" by auto
      then show "(j, citation_of j rows) = (j, citation_of j (rows @ [r]))"
        by (simp add: citation_of_snoc_other)
    qed
    have "loop_body (citations_of rows) r
          = Inr \<lparr>prototype = None,
                 properties = ?al @ [(?k, add_bounding_box (add_paper ?empty (cited_paper_id r))
                                           (row_box r))]\<rparr>"
      by (simp add: loop_body_def has created found written box)
    also have "add_bounding_box (add_paper ?empty (cited_paper_id r)) (row_box r)
               = citation_of ?k (rows @ [r])"
      by (simp add: citation_of_snoc_same citation_of_absent [OF absent])
    finally have "loop_body (citations_of rows) r
          = Inr \<lparr>prototype = None,
                 properties = ?al @ [(?k, citation_of ?k (rows @ [r]))]\<rparr>" .
    moreover have "citations_of (rows @ [r])
          = \<lparr>prototype = None, properties = ?al @ [(?k, citation_of ?k (rows @ [r]))]\<rparr>"
      using False by (simp add: citations_of_def first_occurrences_snoc same [symmetric])
    ultimately show ?thesis by simp
  qed
qed

lemma aggregate_citations_of:
  "ordinary_rows rows \<Longrightarrow> aggregate rows = Inr (citations_of rows)"
proof (induction rows rule: rev_induct)
  case Nil
  show ?case by (simp add: aggregate_def citations_of_def)
next
  case (snoc r rows)
  then have "aggregate rows = Inr (citations_of rows)"
    by (simp add: ordinary_rows_def)
  moreover have "loop_body (citations_of rows) r = Inr (citations_of (rows @ [r]))"
    using snoc.prems by (intro loop_body_citations_of) (auto simp: ordinary_rows_def)
  ultimately show ?case
    using citations_loop_snoc [of "\<lparr>prototype = None, properties = []\<rparr>" rows r]
    by (simp add: aggregate_def)
qed

subsection \<open>Object.values\<close>

lemma mset_filter_split: "mset (filter P xs) + mset (filter (\<lambda>x. \<not> P x) xs) = mset xs"
  by (induction xs) auto

lemma mset_Object_values: "mset (Object_values s) = image_mset snd (mset (properties s))"
proof -
  let ?P = "\<lambda>p. is_array_index (fst p)"
  let ?xs = "properties s"
  have "mset (Object_values s)
        = image_mset snd (mset (filter ?P ?xs) + mset (filter (\<lambda>p. \<not> ?P p) ?xs))"
    by (simp add: Object_values_def del: mset_filter)
  then show ?thesis
    by (simp only: mset_filter_split)
qed

lemma length_Object_values: "length (Object_values s) = length (properties s)"
  using arg_cong [OF mset_Object_values, of size s] by simp

lemma getCitationsForPaper_ordinary:
  "ordinary_rows rows \<Longrightarrow> getCitationsForPaper rows = Inr (Object_values (citations_of rows))"
  by (simp add: getCitationsForPaper_def aggregate_citations_of)



lemma first_occurrences_constant:
  "xs \<noteq> [] \<Longrightarrow> \<forall>x\<in>set xs. x = k \<Longrightarrow> first_occurrences xs = [k]"
proof -
  assume ne: "xs \<noteq> []" and all: "\<forall>x\<in>set xs. x = k"
  then have s: "set (first_occurrences xs) = {k}" by (cases xs) auto
  have d: "distinct (first_occurrences xs)" by simp
  show ?thesis
  proof (cases "first_occurrences xs")
    case Nil
    with s show ?thesis by simp
  next
    case (Cons a zs)
    with s d have "a = k" "set zs \<subseteq> {k}" "k \<notin> set zs" by auto
    then have "zs = []" by (cases zs) auto
    with Cons \<open>a = k\<close> show ?thesis by simp
  qed
qed

lemma Object_values_single: "properties s = [(k, c)] \<Longrightarrow> Object_values s = [c]"
  by (simp add: Object_values_def)

lemma single_citation:
  assumes "rows \<noteq> []" "ordinary_key k" "\<forall>r\<in>set rows. citation_id r = k"
  shows "getCitationsForPaper rows = Inr [citation_of k rows]"
proof -
  have ord: "ordinary_rows rows"
    using assms by (simp add: ordinary_rows_def list_all_iff)
  have "first_occurrences (map citation_id rows) = [k]"
    using assms by (intro first_occurrences_constant) auto
  then have "properties (citations_of rows) = [(k, citation_of k rows)]"
    by (simp add: citations_of_def)
  then show ?thesis
    by (simp add: getCitationsForPaper_ordinary [OF ord] Object_values_single)
qed

lemma rows_of_all: "\<forall>r\<in>set rows. citation_id r = k \<Longrightarrow> rows_of k rows = rows"
  by (simp add: rows_of_def)

subsection \<open>The result as a function of the rows\<close>

lemma mset_citations_of:
  "image_mset snd (mset (properties (citations_of rows)))
   = image_mset (\<lambda>k. citation_of k rows) (mset_set (citation_id ` set rows))"
proof -
  let ?ks = "first_occurrences (map citation_id rows)"
  have "mset_set (citation_id ` set rows) = mset ?ks"
    using mset_set_set [of ?ks] by simp
  then show ?thesis
    by (simp add: citations_of_def multiset.map_comp comp_def)
qed

lemma length_citations_of:
  "length (properties (citations_of rows)) = card (citation_id ` set rows)"
  using distinct_card [of "first_occurrences (map citation_id rows)"]
  by (simp add: citations_of_def)

lemma first_occurrences_absorb:
  "set ys \<subseteq> set xs \<Longrightarrow> first_occurrences (xs @ ys) = first_occurrences xs"
proof (induction ys rule: rev_induct)
  case Nil
  show ?case by simp
next
  case (snoc y ys)
  then show ?case
    using first_occurrences_snoc [of "xs @ ys" y] by simp
qed

lemma citations_of_twice: "citations_of (rows @ rows) = citations_of rows"
  by (simp add: citations_of_def citation_of_def rows_of_def first_occurrences_absorb)

lemma row_box_eq_iff:
  "row_box r1 = row_box r2 \<longleftrightarrow>
     page r1 = page r2 \<and> left r1 = left r2 \<and> top' r1 = top' r2 \<and>
     width r1 = width r2 \<and> height r1 = height r2"
  by (simp add: row_box_def)

lemma properties_citations_of_lookup:
  "k \<in> citation_id ` set rows \<Longrightarrow>
   map_of (properties (citations_of rows)) k = Some (citation_of k rows)"
  by (simp add: citations_of_def map_of_tabulated)

lemma citation_of_in_Object_values:
  assumes "k \<in> citation_id ` set rows"
  shows "citation_of k rows \<in> set (Object_values (citations_of rows))"
proof -
  have "citation_of k rows \<in> snd ` set (properties (citations_of rows))"
    using assms by (force simp: citations_of_def)
  then have "citation_of k rows \<in># image_mset snd (mset (properties (citations_of rows)))"
    by simp
  then show ?thesis
    by (simp only: mset_Object_values [symmetric] set_mset_mset)
qed

subsection \<open>The invariant of the accumulator\<close>

lemma some_isEqual_left: "some bs (isEqual b) \<longleftrightarrow> b \<in> set bs"
  by (auto simp: some_def list_ex_iff isEqual_iff)

lemma no_equal_boxes_distinct: "no_equal_boxes bs \<longleftrightarrow> distinct bs"
  by (induction bs) (auto simp: some_isEqual_left)

lemma no_duplicates_empty: "no_duplicates \<lparr>bounding_boxes = [], papers = []\<rparr>"
  by (simp add: no_duplicates_def)

lemma no_duplicates_add:
  "no_duplicates c \<Longrightarrow> no_duplicates (add_bounding_box (add_paper c p) b)"
  by (simp add: no_duplicates_def no_equal_boxes_distinct papers_add_paper boxes_add_paper
        boxes_add_bounding_box papers_add_bounding_box)

lemma appended_refl: "appended c c"
  by (simp add: appended_def)

lemma appended_trans: "appended c1 c2 \<Longrightarrow> appended c2 c3 \<Longrightarrow> appended c1 c3"
  by (auto simp: appended_def)

lemma appended_add: "appended c (add_bounding_box (add_paper c p) b)"
  by (simp add: appended_def papers_add_paper boxes_add_paper
        boxes_add_bounding_box papers_add_bounding_box)

text \<open>What one iteration does to the own properties.\<close>

lemma loop_body_properties:
  assumes "loop_body s r = Inr s'"
  shows "properties s' =
     (if citation_id r = ''__proto__'' then properties s
      else AList.update (citation_id r)
             (add_bounding_box
                (add_paper (case map_of (properties s) (citation_id r) of
                              None \<Rightarrow> \<lparr>bounding_boxes = [], papers = []\<rparr>
                            | Some c \<Rightarrow> c)
                   (cited_paper_id r))
                (row_box r))
             (properties s))"
  using assms
  by (auto simp: loop_body_def hasOwnProperty_def assign_def lookup_def Let_def row_box_def
        update_conv' split: if_splits option.splits)

lemma persists_iff:
  "persists s s' \<longleftrightarrow>
     (\<forall>(j, c)\<in>set (properties s). \<exists>c'. map_of (properties s') j = Some c' \<and> appended c c')"
  by (auto simp: persists_def list_all_iff split: option.splits)

lemma citations_invariant_iff:
  "citations_invariant s \<longleftrightarrow>
     distinct (map fst (properties s)) \<and> (\<forall>(j, c)\<in>set (properties s). no_duplicates c)"
  by (auto simp: citations_invariant_def list_all_iff)

lemma persists_refl: "distinct (map fst (properties s)) \<Longrightarrow> persists s s"
  by (auto simp: persists_iff appended_refl)

lemma persists_trans: "persists s1 s2 \<Longrightarrow> persists s2 s3 \<Longrightarrow> persists s1 s3"
  unfolding persists_iff
proof (intro ballI, clarify)
  fix j c
  assume 12: "\<forall>(j, c)\<in>set (properties s1). \<exists>c'. map_of (properties s2) j = Some c' \<and> appended c c'"
    and 23: "\<forall>(j, c)\<in>set (properties s2). \<exists>c'. map_of (properties s3) j = Some c' \<and> appended c c'"
    and in1: "(j, c) \<in> set (properties s1)"
  from 12 in1 obtain c2 where c2: "map_of (properties s2) j = Some c2" "appended c c2" by blast
  from c2(1) have "(j, c2) \<in> set (properties s2)" by (rule map_of_SomeD)
  with 23 obtain c3 where "map_of (properties s3) j = Some c3" "appended c2 c3" by blast
  with c2(2) show "\<exists>c'. map_of (properties s3) j = Some c' \<and> appended c c'"
    by (blast intro: appended_trans)
qed

lemma loop_body_invariant:
  assumes step: "loop_body s r = Inr s'" and inv: "citations_invariant s"
  shows "citations_invariant s' \<and> persists s s'"
proof (cases "citation_id r = ''__proto__''")
  case True
  with loop_body_properties [OF step] have same: "properties s' = properties s" by simp
  have "persists s s"
    using inv by (simp add: persists_refl citations_invariant_iff)
  with inv same show ?thesis
    by (simp add: citations_invariant_def persists_def)
next
  case False
  let ?k = "citation_id r"
  let ?c0 = "case map_of (properties s) ?k of
               None \<Rightarrow> \<lparr>bounding_boxes = [], papers = []\<rparr> | Some c \<Rightarrow> c"
  let ?v = "add_bounding_box (add_paper ?c0 (cited_paper_id r)) (row_box r)"
  from False loop_body_properties [OF step]
  have props: "properties s' = AList.update ?k ?v (properties s)" by simp
  from inv have d: "distinct (map fst (properties s))"
    and nd: "\<And>j c. (j, c) \<in> set (properties s) \<Longrightarrow> no_duplicates c"
    by (auto simp: citations_invariant_iff)
  have "no_duplicates ?c0"
    by (auto simp: no_duplicates_empty split: option.splits dest: map_of_SomeD nd)
  then have v: "no_duplicates ?v" by (rule no_duplicates_add)
  have d': "distinct (map fst (properties s'))"
    using d by (simp add: props distinct_update)
  have nd': "no_duplicates c" if "(j, c) \<in> set (properties s')" for j c
  proof -
    from that d' have "map_of (properties s') j = Some c" by simp
    then have "((map_of (properties s))(?k \<mapsto> ?v)) j = Some c"
      by (simp add: props update_conv')
    then show ?thesis
      using v by (auto split: if_splits dest: map_of_SomeD nd)
  qed
  have keep: "\<exists>c'. map_of (properties s') j = Some c' \<and> appended c c'"
    if "(j, c) \<in> set (properties s)" for j c
  proof -
    from that d have m: "map_of (properties s) j = Some c" by simp
    show ?thesis
    proof (cases "j = ?k")
      case True
      with m have "?c0 = c" by simp
      then have "appended c ?v" using appended_add [of c] by simp
      with True show ?thesis by (simp add: props update_conv')
    next
      case False
      with m show ?thesis by (simp add: props update_conv' appended_refl)
    qed
  qed
  from d' nd' keep show ?thesis
    by (auto simp: citations_invariant_iff persists_iff)
qed

lemma citations_loop_invariant:
  "citations_loop s rows = Inr s' \<Longrightarrow> citations_invariant s \<Longrightarrow>
   citations_invariant s' \<and> persists s s'"
proof (induction rows arbitrary: s)
  case Nil
  then show ?case by (simp add: persists_refl citations_invariant_iff)
next
  case (Cons r rows)
  from Cons.prems(1) obtain s1 where step: "loop_body s r = Inr s1"
    and rest: "citations_loop s1 rows = Inr s'"
    by (auto split: sum.splits)
  from loop_body_invariant [OF step Cons.prems(2)]
  have "citations_invariant s1" "persists s s1" by simp_all
  with Cons.IH [OF rest] show ?case by (blast intro: persists_trans)
qed

lemma citations_loop_append:
  "citations_loop s (xs @ ys) =
     (case citations_loop s xs of Inl e \<Rightarrow> Inl e | Inr s1 \<Rightarrow> citations_loop s1 ys)"
  by (induction xs arbitrary: s) (simp_all split: sum.splits)

lemma loop_body_creates:
  "loop_body s r = Inr s' \<Longrightarrow> citation_id r \<noteq> ''__proto__'' \<Longrightarrow>
   map_of (properties s') (citation_id r) \<noteq> None"
  using loop_body_properties [of s r s'] by (simp add: update_conv')

lemma persists_keys:
  "persists s s' \<Longrightarrow> map_of (properties s) j \<noteq> None \<Longrightarrow> map_of (properties s') j \<noteq> None"
  by (fastforce simp: persists_iff dest: map_of_SomeD)

lemma citations_loop_creates:
  "citations_loop s rows = Inr s' \<Longrightarrow> citations_invariant s \<Longrightarrow> r \<in> set rows \<Longrightarrow>
   citation_id r \<noteq> ''__proto__'' \<Longrightarrow> map_of (properties s') (citation_id r) \<noteq> None"
proof (induction rows arbitrary: s)
  case Nil
  then show ?case by simp
next
  case (Cons x rows)
  from Cons.prems(1) obtain s1 where step: "loop_body s x = Inr s1"
    and rest: "citations_loop s1 rows = Inr s'"
    by (auto split: sum.splits)
  from loop_body_invariant [OF step Cons.prems(2)] have inv1: "citations_invariant s1" by simp
  show ?case
  proof (cases "r \<in> set rows")
    case True
    from Cons.IH [OF rest inv1 True Cons.prems(4)] show ?thesis .
  next
    case False
    with Cons.prems(3) have "r = x" by simp
    with loop_body_creates [OF step] Cons.prems(4)
    have "map_of (properties s1) (citation_id r) \<noteq> None" by simp
    moreover from citations_loop_invariant [OF rest inv1] have "persists s1 s'" by simp
    ultimately show ?thesis by (rule persists_keys [rotated])
  qed
qed

lemma empty_invariant: "citations_invariant \<lparr>prototype = None, properties = []\<rparr>"
  by (simp add: citations_invariant_def)

subsection \<open>The two keys that are not ordinary\<close>

text \<open>
  A row keyed \<open>__proto__\<close> leaves no entry: its citation becomes the prototype of the
  accumulator. A row keyed \<open>hasOwnProperty\<close> makes the next iteration throw.
\<close>

lemma proto_row_leaves_no_entry:
  "getCitationsForPaper
     [\<lparr>page = 0, left = 1, top' = 2, width = 3, height = 4,
       citation_id = ''__proto__'', cited_paper_id = ''p1''\<rparr> :: int Row] = Inr []"
  by (simp add: getCitationsForPaper_def aggregate_def loop_body_def hasOwnProperty_def
        assign_def lookup_def Object_values_def)

lemma shadowed_hasOwnProperty_throws:
  "getCitationsForPaper
     [\<lparr>page = 0, left = 1, top' = 2, width = 3, height = 4,
       citation_id = ''hasOwnProperty'', cited_paper_id = ''p1''\<rparr>,
      \<lparr>page = 0, left = 1, top' = 2, width = 3, height = 4,
       citation_id = ''c1'', cited_paper_id = ''p1''\<rparr> :: int Row] = Inl TypeError"
  by (simp add: getCitationsForPaper_def aggregate_def loop_body_def hasOwnProperty_def
        assign_def lookup_def)

section \<open>The claims on aggregation\<close>

text \<open>
  Claim C1, as the code has it. \<open>getCitationsForPaper\<close> returns \<open>Object.values(citations)\<close>:
  a list of citations, each with its papers and bounding boxes and without an identifier, not
  the mapping from identifier to citation. For rows whose citation identifiers are ordinary
  keys the list has exactly one element per distinct \<open>citation_id\<close> of the rows, and its
  elements are the aggregates of these identifiers.
\<close>

theorem one_citation_per_ordinary_id:
  "ordinary_rows rows \<Longrightarrow>
   \<exists>cs. getCitationsForPaper rows = Inr cs \<and>
        length cs = card (citation_id ` set rows) \<and>
        mset cs = image_mset (\<lambda>k. citation_of k rows) (mset_set (citation_id ` set rows))"
  by (simp add: getCitationsForPaper_ordinary length_Object_values length_citations_of
        mset_Object_values mset_citations_of)

theorem one_citation_per_ordinary_id_witness:
  "\<exists>cs. getCitationsForPaper
     [\<lparr>page = 0, left = 1, top' = 2, width = 3, height = 4,
       citation_id = ''7'', cited_paper_id = ''p1''\<rparr>,
      \<lparr>page = 0, left = 1, top' = 2, width = 3, height = 5,
       citation_id = ''c2'', cited_paper_id = ''p1''\<rparr>,
      \<lparr>page = 0, left = 1, top' = 2, width = 3, height = 4,
       citation_id = ''7'', cited_paper_id = ''p2''\<rparr> :: int Row] = Inr cs \<and> length cs = 2"
proof -
  let ?rows = "[\<lparr>page = 0, left = 1, top' = 2, width = 3, height = 4,
       citation_id = ''7'', cited_paper_id = ''p1''\<rparr>,
      \<lparr>page = 0, left = 1, top' = 2, width = 3, height = 5,
       citation_id = ''c2'', cited_paper_id = ''p1''\<rparr>,
      \<lparr>page = 0, left = 1, top' = 2, width = 3, height = 4,
       citation_id = ''7'', cited_paper_id = ''p2''\<rparr> :: int Row]"
  have "ordinary_rows ?rows" by (simp add: ordinary_rows_def ordinary_key_def)
  from one_citation_per_ordinary_id [OF this] show ?thesis
    by (auto simp: card_insert_if)
qed

text \<open>
  Claim C1, as stated, fails: two inputs that differ only in the citation identifier give
  the same result, so the result carries no identifier and is not keyed by one.
\<close>

theorem identifiers_dropped_counterexample:
  "getCitationsForPaper
     [\<lparr>page = 0, left = 1, top' = 2, width = 3, height = 4,
       citation_id = ''c1'', cited_paper_id = ''p1''\<rparr> :: int Row]
   = Inr [\<lparr>bounding_boxes = [\<lparr>page = 0, left = 1, top' = 2, width = 3, height = 4\<rparr>],
           papers = [''p1'']\<rparr>]
   \<and> getCitationsForPaper
     [\<lparr>page = 0, left = 1, top' = 2, width = 3, height = 4,
       citation_id = ''c2'', cited_paper_id = ''p1''\<rparr> :: int Row]
   = Inr [\<lparr>bounding_boxes = [\<lparr>page = 0, left = 1, top' = 2, width = 3, height = 4\<rparr>],
           papers = [''p1'']\<rparr>]"
  by (simp add: getCitationsForPaper_def aggregate_def loop_body_def hasOwnProperty_def
        assign_def lookup_def add_paper_def add_bounding_box_def indexOf_def push_def
        some_def isEqual_def Object_values_def is_array_index_def is_digit_def)

text \<open>
  Claim C3. The two rows of citation \<open>c1\<close> that cite \<open>p1\<close> and \<open>p2\<close> and repeat the box
  \<open>(0, 1, 2, 3, 4)\<close> aggregate to the single citation with papers \<open>[p1, p2]\<close> and one
  box. In general, rows of one citation that all carry the same box yield exactly one box,
  whatever papers they cite. The citation identifier is an ordinary key.
\<close>

theorem repeated_box_stored_once:
  "getCitationsForPaper
     [\<lparr>page = 0, left = 1, top' = 2, width = 3, height = 4,
       citation_id = ''c1'', cited_paper_id = ''p1''\<rparr>,
      \<lparr>page = 0, left = 1, top' = 2, width = 3, height = 4,
       citation_id = ''c1'', cited_paper_id = ''p2''\<rparr> :: int Row]
   = Inr [\<lparr>bounding_boxes = [\<lparr>page = 0, left = 1, top' = 2, width = 3, height = 4\<rparr>],
           papers = [''p1'', ''p2'']\<rparr>]
   \<and> (rows \<noteq> [] \<and> ordinary_key k \<and> list_all (\<lambda>r. citation_id r = k \<and> row_box r = b) rows
        \<longrightarrow> getCitationsForPaper rows
            = Inr [\<lparr>bounding_boxes = [b],
                    papers = first_occurrences (map cited_paper_id rows)\<rparr>])"
proof (intro conjI impI)
  show "getCitationsForPaper
     [\<lparr>page = 0, left = 1, top' = 2, width = 3, height = 4,
       citation_id = ''c1'', cited_paper_id = ''p1''\<rparr>,
      \<lparr>page = 0, left = 1, top' = 2, width = 3, height = 4,
       citation_id = ''c1'', cited_paper_id = ''p2''\<rparr> :: int Row]
   = Inr [\<lparr>bounding_boxes = [\<lparr>page = 0, left = 1, top' = 2, width = 3, height = 4\<rparr>],
           papers = [''p1'', ''p2'']\<rparr>]"
    by (simp add: getCitationsForPaper_def aggregate_def loop_body_def hasOwnProperty_def
          assign_def lookup_def add_paper_def add_bounding_box_def indexOf_def push_def
          some_def isEqual_def Object_values_def is_array_index_def is_digit_def)
next
  assume a: "rows \<noteq> [] \<and> ordinary_key k \<and> list_all (\<lambda>r. citation_id r = k \<and> row_box r = b) rows"
  then have same: "\<forall>r\<in>set rows. citation_id r = k" and box: "\<forall>x\<in>set (map row_box rows). x = b"
    by (auto simp: list_all_iff)
  have "first_occurrences (map row_box rows) = [b]"
    using a box by (intro first_occurrences_constant) auto
  then have "citation_of k rows
             = \<lparr>bounding_boxes = [b], papers = first_occurrences (map cited_paper_id rows)\<rparr>"
    by (simp add: citation_of_def rows_of_all [OF same])
  moreover have "getCitationsForPaper rows = Inr [citation_of k rows]"
    using a same by (intro single_citation) auto
  ultimately show "getCitationsForPaper rows
            = Inr [\<lparr>bounding_boxes = [b],
                    papers = first_occurrences (map cited_paper_id rows)\<rparr>]"
    by simp
qed

theorem repeated_box_stored_once_witness:
  "getCitationsForPaper
     [\<lparr>page = 7, left = 1, top' = 2, width = 3, height = 4,
       citation_id = ''12'', cited_paper_id = ''a''\<rparr>,
      \<lparr>page = 7, left = 1, top' = 2, width = 3, height = 4,
       citation_id = ''12'', cited_paper_id = ''b''\<rparr>,
      \<lparr>page = 7, left = 1, top' = 2, width = 3, height = 4,
       citation_id = ''12'', cited_paper_id = ''a''\<rparr> :: int Row]
   = Inr [\<lparr>bounding_boxes = [\<lparr>page = 7, left = 1, top' = 2, width = 3, height = 4\<rparr>],
           papers = [''a'', ''b'']\<rparr>]"
  using repeated_box_stored_once
    [of "[\<lparr>page = 7, left = 1, top' = 2, width = 3, height = 4,
       citation_id = ''12'', cited_paper_id = ''a''\<rparr>,
      \<lparr>page = 7, left = 1, top' = 2, width = 3, height = 4,
       citation_id = ''12'', cited_paper_id = ''b''\<rparr>,
      \<lparr>page = 7, left = 1, top' = 2, width = 3, height = 4,
       citation_id = ''12'', cited_paper_id = ''a''\<rparr> :: int Row]" "''12''"
      "\<lparr>page = 7, left = 1, top' = 2, width = 3, height = 4\<rparr>"]
  by (simp add: ordinary_key_def row_box_def)

text \<open>
  Claim C4. \<open>add_bounding_box\<close> leaves the list of boxes as it is exactly when it already
  holds a box equal to the new one in all five fields \<open>page\<close>, \<open>left\<close>, \<open>top\<close>, \<open>width\<close> and
  \<open>height\<close>, and appends the new box otherwise. In the aggregation, two rows of one citation
  leave one box if their boxes agree in all five fields, and both boxes if they differ in any
  field.
\<close>

theorem boxes_collapse_iff_all_fields_equal:
  "bounding_boxes (add_bounding_box (c :: 'n Citation) box) =
     (if \<exists>b\<in>set (bounding_boxes c).
           page b = page box \<and> left b = left box \<and> top' b = top' box \<and>
           width b = width box \<and> height b = height box
      then bounding_boxes c else bounding_boxes c @ [box])
   \<and> (ordinary_key (citation_id r1) \<and> citation_id r2 = citation_id r1 \<longrightarrow>
        (\<exists>c'. getCitationsForPaper [r1, r2 :: 'n Row] = Inr [c'] \<and>
           bounding_boxes c' =
             (if page r1 = page r2 \<and> left r1 = left r2 \<and> top' r1 = top' r2 \<and>
                 width r1 = width r2 \<and> height r1 = height r2
              then [row_box r1] else [row_box r1, row_box r2])))"
proof (intro conjI impI)
  show "bounding_boxes (add_bounding_box c box) =
     (if \<exists>b\<in>set (bounding_boxes c).
           page b = page box \<and> left b = left box \<and> top' b = top' box \<and>
           width b = width box \<and> height b = height box
      then bounding_boxes c else bounding_boxes c @ [box])"
    by (auto simp: add_bounding_box_def some_def list_ex_iff isEqual_def push_def)
next
  assume a: "ordinary_key (citation_id r1) \<and> citation_id r2 = citation_id r1"
  then have "getCitationsForPaper [r1, r2] = Inr [citation_of (citation_id r1) [r1, r2]]"
    by (intro single_citation) auto
  moreover have "bounding_boxes (citation_of (citation_id r1) [r1, r2]) =
             (if page r1 = page r2 \<and> left r1 = left r2 \<and> top' r1 = top' r2 \<and>
                 width r1 = width r2 \<and> height r1 = height r2
              then [row_box r1] else [row_box r1, row_box r2])"
    using a by (simp add: citation_of_def rows_of_def row_box_eq_iff)
  ultimately show "\<exists>c'. getCitationsForPaper [r1, r2] = Inr [c'] \<and>
           bounding_boxes c' =
             (if page r1 = page r2 \<and> left r1 = left r2 \<and> top' r1 = top' r2 \<and>
                 width r1 = width r2 \<and> height r1 = height r2
              then [row_box r1] else [row_box r1, row_box r2])"
    by blast
qed

theorem boxes_collapse_iff_all_fields_equal_witness:
  "bounding_boxes (add_bounding_box
      \<lparr>bounding_boxes = [\<lparr>page = 0, left = 1, top' = 2, width = 3, height = 4\<rparr>], papers = []\<rparr>
      \<lparr>page = 0, left = 1, top' = 2, width = 3, height = 4 :: int\<rparr>)
   = [\<lparr>page = 0, left = 1, top' = 2, width = 3, height = 4\<rparr>] \<and>
   (\<exists>c'. getCitationsForPaper
          [\<lparr>page = 0, left = 1, top' = 2, width = 3, height = 4,
            citation_id = ''c1'', cited_paper_id = ''p1''\<rparr>,
           \<lparr>page = 0, left = 1, top' = 2, width = 3, height = 5,
            citation_id = ''c1'', cited_paper_id = ''p1''\<rparr> :: int Row] = Inr [c'] \<and>
        bounding_boxes c' = [\<lparr>page = 0, left = 1, top' = 2, width = 3, height = 4\<rparr>,
                             \<lparr>page = 0, left = 1, top' = 2, width = 3, height = 5\<rparr>])"
  using boxes_collapse_iff_all_fields_equal
    [of "\<lparr>bounding_boxes = [\<lparr>page = 0, left = 1, top' = 2, width = 3, height = 4\<rparr>],
           papers = []\<rparr>"
        "\<lparr>page = 0, left = 1, top' = 2, width = 3, height = 4\<rparr>"
        "\<lparr>page = 0, left = 1, top' = 2, width = 3, height = 4,
            citation_id = ''c1'', cited_paper_id = ''p1''\<rparr> :: int Row"
        "\<lparr>page = 0, left = 1, top' = 2, width = 3, height = 5,
            citation_id = ''c1'', cited_paper_id = ''p1''\<rparr>"]
  by (simp add: ordinary_key_def row_box_def)

text \<open>
  Claim C5. \<open>add_paper\<close> appends a paper identifier only when the list does not hold it yet.
  For every citation of the rows, the \<open>papers\<close> of its aggregate are the cited papers of its
  rows in order of first appearance; rows that supply \<open>[P1, P2, P1, P3]\<close> give exactly
  \<open>[P1, P2, P3]\<close>.
\<close>

theorem papers_in_order_of_first_appearance:
  "papers (add_paper (c :: 'n Citation) p)
     = (if p \<in> set (papers c) then papers c else papers c @ [p])
   \<and> (ordinary_rows (rows :: 'n Row list) \<and> k \<in> citation_id ` set rows \<longrightarrow>
        (\<exists>s c' cs. aggregate rows = Inr s \<and> map_of (properties s) k = Some c' \<and>
           getCitationsForPaper rows = Inr cs \<and> c' \<in> set cs \<and>
           papers c' = first_occurrences (map cited_paper_id (rows_of k rows)) \<and>
           (map cited_paper_id (rows_of k rows) = [P1, P2, P1, P3] \<and> distinct [P1, P2, P3]
              \<longrightarrow> papers c' = [P1, P2, P3])))"
proof (intro conjI impI)
  show "papers (add_paper c p) = (if p \<in> set (papers c) then papers c else papers c @ [p])"
    by (rule papers_add_paper)
next
  assume a: "ordinary_rows rows \<and> k \<in> citation_id ` set rows"
  let ?c = "citation_of k rows"
  have "aggregate rows = Inr (citations_of rows)"
    using a by (simp add: aggregate_citations_of)
  moreover have "map_of (properties (citations_of rows)) k = Some ?c"
    using a by (simp add: properties_citations_of_lookup)
  moreover have "getCitationsForPaper rows = Inr (Object_values (citations_of rows))"
    using a by (simp add: getCitationsForPaper_ordinary)
  moreover have "?c \<in> set (Object_values (citations_of rows))"
    using a by (simp add: citation_of_in_Object_values)
  moreover have "papers ?c = first_occurrences (map cited_paper_id (rows_of k rows))"
    by (simp add: citation_of_def)
  moreover have "map cited_paper_id (rows_of k rows) = [P1, P2, P1, P3] \<and> distinct [P1, P2, P3]
              \<longrightarrow> papers ?c = [P1, P2, P3]"
    by (auto simp: citation_of_def)
  ultimately show "\<exists>s c' cs. aggregate rows = Inr s \<and> map_of (properties s) k = Some c' \<and>
           getCitationsForPaper rows = Inr cs \<and> c' \<in> set cs \<and>
           papers c' = first_occurrences (map cited_paper_id (rows_of k rows)) \<and>
           (map cited_paper_id (rows_of k rows) = [P1, P2, P1, P3] \<and> distinct [P1, P2, P3]
              \<longrightarrow> papers c' = [P1, P2, P3])"
    by blast
qed

theorem papers_in_order_of_first_appearance_witness:
  "\<exists>s c' cs.
      aggregate
        [\<lparr>page = 0, left = 1, top' = 2, width = 3, height = 4,
          citation_id = ''c9'', cited_paper_id = ''a''\<rparr>,
         \<lparr>page = 0, left = 1, top' = 2, width = 3, height = 4,
          citation_id = ''c9'', cited_paper_id = ''b''\<rparr>,
         \<lparr>page = 1, left = 1, top' = 2, width = 3, height = 4,
          citation_id = ''3'', cited_paper_id = ''b''\<rparr>,
         \<lparr>page = 0, left = 1, top' = 2, width = 3, height = 4,
          citation_id = ''c9'', cited_paper_id = ''a''\<rparr>,
         \<lparr>page = 0, left = 1, top' = 2, width = 3, height = 4,
          citation_id = ''c9'', cited_paper_id = ''c''\<rparr> :: int Row] = Inr s \<and>
      map_of (properties s) ''c9'' = Some c' \<and> papers c' = [''a'', ''b'', ''c'']"
  using papers_in_order_of_first_appearance
    [of "\<lparr>bounding_boxes = [], papers = []\<rparr>" "''a''"
        "[\<lparr>page = 0, left = 1, top' = 2, width = 3, height = 4,
          citation_id = ''c9'', cited_paper_id = ''a''\<rparr>,
         \<lparr>page = 0, left = 1, top' = 2, width = 3, height = 4,
          citation_id = ''c9'', cited_paper_id = ''b''\<rparr>,
         \<lparr>page = 1, left = 1, top' = 2, width = 3, height = 4,
          citation_id = ''3'', cited_paper_id = ''b''\<rparr>,
         \<lparr>page = 0, left = 1, top' = 2, width = 3, height = 4,
          citation_id = ''c9'', cited_paper_id = ''a''\<rparr>,
         \<lparr>page = 0, left = 1, top' = 2, width = 3, height = 4,
          citation_id = ''c9'', cited_paper_id = ''c''\<rparr> :: int Row]"
        "''c9''" "''a''" "''b''" "''c''"]
  by (simp add: ordinary_rows_def ordinary_key_def rows_of_def) blast

text \<open>
  Claim C6. The result is a function of the rows alone, as the accumulator is created anew
  in every call, so two runs on the same rows give equal results. The deduplication is
  idempotent: feeding the rows a second time changes nothing, and rows that repeat one pair
  of citation and paper any number of times give one citation whose \<open>papers\<close> holds that
  paper exactly once.
\<close>

theorem dedup_is_idempotent:
  "(ordinary_rows (rows :: 'n Row list) \<longrightarrow>
      getCitationsForPaper (rows @ rows) = getCitationsForPaper rows)
   \<and> (rows' \<noteq> [] \<and> ordinary_key k \<and>
       list_all (\<lambda>r. citation_id r = k \<and> cited_paper_id r = p) (rows' :: 'n Row list) \<longrightarrow>
        (\<exists>bs. getCitationsForPaper rows' = Inr [\<lparr>bounding_boxes = bs, papers = [p]\<rparr>]))"
proof (intro conjI impI)
  assume ord: "ordinary_rows rows"
  then have "ordinary_rows (rows @ rows)" by (simp add: ordinary_rows_def)
  with ord show "getCitationsForPaper (rows @ rows) = getCitationsForPaper rows"
    by (simp add: getCitationsForPaper_ordinary citations_of_twice)
next
  assume a: "rows' \<noteq> [] \<and> ordinary_key k \<and>
       list_all (\<lambda>r. citation_id r = k \<and> cited_paper_id r = p) rows'"
  then have same: "\<forall>r\<in>set rows'. citation_id r = k"
    and paper: "\<forall>x\<in>set (map cited_paper_id rows'). x = p"
    by (auto simp: list_all_iff)
  have "first_occurrences (map cited_paper_id rows') = [p]"
    using a paper by (intro first_occurrences_constant) auto
  then have "citation_of k rows'
             = \<lparr>bounding_boxes = first_occurrences (map row_box rows'), papers = [p]\<rparr>"
    by (simp add: citation_of_def rows_of_all [OF same])
  moreover have "getCitationsForPaper rows' = Inr [citation_of k rows']"
    using a same by (intro single_citation) auto
  ultimately show "\<exists>bs. getCitationsForPaper rows' = Inr [\<lparr>bounding_boxes = bs, papers = [p]\<rparr>]"
    by simp
qed

theorem dedup_is_idempotent_witness:
  "getCitationsForPaper
     ([\<lparr>page = 0, left = 1, top' = 2, width = 3, height = 4,
        citation_id = ''c1'', cited_paper_id = ''p''\<rparr>,
       \<lparr>page = 0, left = 1, top' = 2, width = 3, height = 4,
        citation_id = ''8'', cited_paper_id = ''p''\<rparr>] @
      [\<lparr>page = 0, left = 1, top' = 2, width = 3, height = 4,
        citation_id = ''c1'', cited_paper_id = ''p''\<rparr>,
       \<lparr>page = 0, left = 1, top' = 2, width = 3, height = 4,
        citation_id = ''8'', cited_paper_id = ''p''\<rparr> :: int Row])
   = getCitationsForPaper
      [\<lparr>page = 0, left = 1, top' = 2, width = 3, height = 4,
        citation_id = ''c1'', cited_paper_id = ''p''\<rparr>,
       \<lparr>page = 0, left = 1, top' = 2, width = 3, height = 4,
        citation_id = ''8'', cited_paper_id = ''p''\<rparr>]
   \<and> (\<exists>bs. getCitationsForPaper
         [\<lparr>page = 0, left = 1, top' = 2, width = 3, height = 4,
           citation_id = ''c1'', cited_paper_id = ''p''\<rparr>,
          \<lparr>page = 0, left = 1, top' = 2, width = 3, height = 5,
           citation_id = ''c1'', cited_paper_id = ''p''\<rparr>,
          \<lparr>page = 0, left = 1, top' = 2, width = 3, height = 4,
           citation_id = ''c1'', cited_paper_id = ''p''\<rparr> :: int Row]
        = Inr [\<lparr>bounding_boxes = bs, papers = [''p'']\<rparr>])"
  using dedup_is_idempotent
    [of "[\<lparr>page = 0, left = 1, top' = 2, width = 3, height = 4,
        citation_id = ''c1'', cited_paper_id = ''p''\<rparr>,
       \<lparr>page = 0, left = 1, top' = 2, width = 3, height = 4,
        citation_id = ''8'', cited_paper_id = ''p''\<rparr> :: int Row]"
       "[\<lparr>page = 0, left = 1, top' = 2, width = 3, height = 4,
           citation_id = ''c1'', cited_paper_id = ''p''\<rparr>,
          \<lparr>page = 0, left = 1, top' = 2, width = 3, height = 5,
           citation_id = ''c1'', cited_paper_id = ''p''\<rparr>,
          \<lparr>page = 0, left = 1, top' = 2, width = 3, height = 4,
           citation_id = ''c1'', cited_paper_id = ''p''\<rparr>]"
       "''c1''" "''p''"]
  by (simp add: ordinary_rows_def ordinary_key_def)

text \<open>
  Claim C7. Let the pass have come through the rows \<open>rows1 @ rows2\<close> and hold the
  accumulator \<open>s2\<close>. Then it held an accumulator \<open>s1\<close> after \<open>rows1\<close>, in which every
  citation has no duplicate paper and no two boxes equal on all fields, and every row of
  \<open>rows1\<close> other than one keyed \<open>__proto__\<close> has its entry. Every entry of \<open>s1\<close> is still an
  entry of \<open>s2\<close> under the same key, and its two lists have only been appended to.
\<close>

theorem entries_deduplicated_and_only_appended:
  "aggregate (rows1 @ rows2) = Inr s2 \<Longrightarrow>
   \<exists>s1. aggregate rows1 = Inr s1 \<and> citations_invariant s1 \<and> persists s1 s2 \<and>
        list_all (\<lambda>r. citation_id r \<noteq> ''__proto__'' \<longrightarrow>
                     map_of (properties s1) (citation_id r) \<noteq> None) rows1"
proof -
  assume a: "aggregate (rows1 @ rows2) = Inr s2"
  let ?e = "\<lparr>prototype = None, properties = []\<rparr> :: 'a CitationsById"
  from a obtain s1 where s1: "citations_loop ?e rows1 = Inr s1"
    and s2: "citations_loop s1 rows2 = Inr s2"
    by (auto simp: aggregate_def citations_loop_append split: sum.splits)
  from citations_loop_invariant [OF s1 empty_invariant]
  have inv1: "citations_invariant s1" by simp
  from citations_loop_invariant [OF s2 inv1] have "persists s1 s2" by simp
  moreover have "list_all (\<lambda>r. citation_id r \<noteq> ''__proto__'' \<longrightarrow>
                     map_of (properties s1) (citation_id r) \<noteq> None) rows1"
    using citations_loop_creates [OF s1 empty_invariant] by (auto simp: list_all_iff)
  ultimately show ?thesis
    using s1 inv1 by (simp add: aggregate_def)
qed

theorem entries_deduplicated_and_only_appended_witness:
  "\<exists>s1. aggregate
          [\<lparr>page = 0, left = 1, top' = 2, width = 3, height = 4,
            citation_id = ''c1'', cited_paper_id = ''p1''\<rparr>,
           \<lparr>page = 0, left = 1, top' = 2, width = 3, height = 4,
            citation_id = ''__proto__'', cited_paper_id = ''p1''\<rparr> :: int Row] = Inr s1 \<and>
        citations_invariant s1 \<and>
        persists s1
          \<lparr>prototype = Some \<lparr>bounding_boxes = [\<lparr>page = 0, left = 1, top' = 2, width = 3,
                                                  height = 4\<rparr>],
                               papers = [''p1'']\<rparr>,
           properties = [(''c1'', \<lparr>bounding_boxes = [\<lparr>page = 0, left = 1, top' = 2, width = 3,
                                                       height = 4\<rparr>],
                                  papers = [''p1'', ''p2'']\<rparr>)]\<rparr>"
proof -
  have run: "aggregate
          ([\<lparr>page = 0, left = 1, top' = 2, width = 3, height = 4,
            citation_id = ''c1'', cited_paper_id = ''p1''\<rparr>,
           \<lparr>page = 0, left = 1, top' = 2, width = 3, height = 4,
            citation_id = ''__proto__'', cited_paper_id = ''p1''\<rparr>] @
           [\<lparr>page = 0, left = 1, top' = 2, width = 3, height = 4,
            citation_id = ''c1'', cited_paper_id = ''p2''\<rparr> :: int Row])
        = Inr \<lparr>prototype = Some \<lparr>bounding_boxes = [\<lparr>page = 0, left = 1, top' = 2, width = 3,
                                                  height = 4\<rparr>],
                               papers = [''p1'']\<rparr>,
           properties = [(''c1'', \<lparr>bounding_boxes = [\<lparr>page = 0, left = 1, top' = 2, width = 3,
                                                       height = 4\<rparr>],
                                  papers = [''p1'', ''p2'']\<rparr>)]\<rparr>"
    by (simp add: aggregate_def loop_body_def hasOwnProperty_def assign_def lookup_def
          add_paper_def add_bounding_box_def indexOf_def push_def some_def isEqual_def)
  from entries_deduplicated_and_only_appended [OF run] show ?thesis
    by blast
qed

section \<open>Properties of the metadata fetcher\<close>

subsection \<open>join, getPaper and Promise.all\<close>

lemma join_loop_started:
  "0 < k \<Longrightarrow> join_loop k R es sep = R @ concat (map (\<lambda>e. sep @ e) es)"
  by (induction es arbitrary: k R) simp_all

lemma join_Cons: "join (e # es) sep = e @ concat (map (\<lambda>e. sep @ e) es)"
  by (simp add: join_def join_loop_started)

lemma comma_separated_Cons:
  "comma_separated (e # es) = e @ concat (map (\<lambda>e. '', '' @ e) es)"
  by (induction es arbitrary: e) simp_all

lemma join_comma_separated: "join xs '', '' = comma_separated xs"
proof (cases xs)
  case Nil
  then show ?thesis by (simp add: join_def)
next
  case (Cons e es)
  then show ?thesis by (simp only: join_Cons comma_separated_Cons)
qed


lemma getPaper_resolved:
  assumes "get (SEMANTIC_SCHOLAR_API_URL @ ''/paper/'' @ i) = Resolved response"
    and "g response" and "data response = PaperData d"
  shows "getPaper g get i =
     Inr (Some \<lparr>s2Id = i,
                title = S2ApiPaper.title d,
                authors = comma_separated (map name (S2ApiPaper.authors d)),
                abstract = S2ApiPaper.abstract d,
                url = S2ApiPaper.url d,
                venue = S2ApiPaper.venue d,
                year = or_null (parseInt (S2ApiPaper.year d))\<rparr>)"
  using assms by (simp add: getPaper_def join_comma_separated)

lemma getPaper_Inr:
  assumes "getPaper g get i = Inr r"
  shows "(r \<noteq> None \<longleftrightarrow> resolves g get i) \<and> (\<forall>p. r = Some p \<longrightarrow> s2Id p = i)"
  using assms
  by (auto simp: getPaper_def resolves_def Let_def
        split: axios_outcome.splits if_splits S2ApiResponse.splits)

lemma getPaper_type_guard:
  "type_guard g \<Longrightarrow> \<exists>r. getPaper g get i = Inr r"
  by (auto simp: getPaper_def type_guard_def Let_def
        split: axios_outcome.splits S2ApiResponse.splits)

lemma Promise_all_map_Inr: "Promise_all (map Inr xs) = Inr xs"
  by (induction xs) simp_all

lemma Promise_all_InrD: "Promise_all ps = Inr xs \<Longrightarrow> ps = map Inr xs"
proof (induction ps arbitrary: xs)
  case Nil
  then show ?case by simp
next
  case (Cons p ps)
  show ?case
  proof (cases p)
    case (Inl e)
    with Cons.prems show ?thesis by simp
  next
    case (Inr x)
    with Cons.prems obtain ys where ys: "Promise_all ps = Inr ys" and xs: "xs = x # ys"
      by (auto split: sum.splits)
    from Cons.IH [OF ys] Inr xs show ?thesis by simp
  qed
qed

lemma Promise_all_Inr: "Promise_all ps = Inr xs \<longleftrightarrow> ps = map Inr xs"
  using Promise_all_InrD Promise_all_map_Inr by blast

lemma Promise_all_fulfilled:
  "\<forall>p\<in>set ps. \<exists>x. p = Inr x \<Longrightarrow> \<exists>xs. Promise_all ps = Inr xs"
proof (induction ps)
  case Nil
  show ?case by simp
next
  case (Cons p ps)
  then obtain x xs where "p = Inr x" "Promise_all ps = Inr xs" by auto
  then show ?case by simp
qed

lemma results_in_request_order:
  "map (request g net) reqs = map Inr results \<Longrightarrow>
   map (\<lambda>p. s2Id (the p)) (filter (\<lambda>paper. paper \<noteq> None) results)
     = map snd (filter (\<lambda>(i, s2Id'). resolves g (net i) s2Id') reqs)"
proof (induction reqs arbitrary: results)
  case Nil
  then show ?case by simp
next
  case (Cons q reqs)
  then obtain r rs where results: "results = r # rs"
    and q: "request g net q = Inr r" and rest: "map (request g net) reqs = map Inr rs"
    by (cases results) auto
  obtain i j where ij: "q = (i, j)" by (cases q)
  from q ij have "getPaper g (net i) j = Inr r" by (simp add: request_def)
  from getPaper_Inr [OF this] Cons.IH [OF rest] show ?case
    by (auto simp: results ij)
qed

lemma getPapers_Inr:
  assumes "getPapers g net ids = Inr found"
  shows "\<exists>results. map (request g net) (enumerate 0 ids) = map Inr results \<and>
           found = filter (\<lambda>paper. paper \<noteq> None) results"
  using assms
  by (auto simp: getPapers_def request_def Promise_all_Inr split: sum.splits)

lemma getPapers_type_guard:
  assumes "type_guard g"
  shows "\<exists>found. getPapers g net ids = Inr found"
proof -
  have "\<forall>p\<in>set (map (request g net) (enumerate 0 ids)). \<exists>x. p = Inr x"
    using getPaper_type_guard [OF assms] by (auto simp: request_def)
  from Promise_all_fulfilled [OF this] show ?thesis
    by (auto simp: getPapers_def request_def)
qed

subsection \<open>parseInt on decimal numerals\<close>

lemma is_digit_digit_of: "is_digit c \<Longrightarrow> digit_of c = Some (of_char c - 48)"
  by (simp add: is_digit_def digit_of_def)

lemma is_digit_radix_10: "is_digit c \<Longrightarrow> is_radix_digit 10 c"
  by (auto simp: is_radix_digit_def is_digit_digit_of is_digit_def)

lemma is_digit_not_space: "is_digit c \<Longrightarrow> \<not> is_white_space c"
  by (auto simp: is_digit_def is_white_space_def)

lemma is_digit_not_sign: "is_digit c \<Longrightarrow> c \<noteq> CHR ''+'' \<and> c \<noteq> CHR ''-''"
  by (auto simp: is_digit_def)

lemma not_digit_x: "\<not> is_digit CHR ''x''" "\<not> is_digit CHR ''X''"
  by (simp_all add: is_digit_def)

lemma radix_value_decimal_aux:
  "list_all is_digit s \<Longrightarrow>
   foldl (\<lambda>acc c. 10 * acc + the (digit_of c)) a s
     = foldl (\<lambda>acc c. 10 * acc + (of_char c - 48)) a s"
  by (induction s arbitrary: a) (simp_all add: is_digit_digit_of)

lemma radix_value_decimal: "list_all is_digit s \<Longrightarrow> radix_value 10 s = decimal_value s"
  by (simp add: radix_value_def decimal_value_def radix_value_decimal_aux)

lemma nearest_double_exact: "m \<le> 2 ^ 53 \<Longrightarrow> nearest_double m = m"
proof (cases "m < 2 ^ 53")
  case True
  then show ?thesis by (simp add: nearest_double_def)
next
  case False
  moreover assume "m \<le> 2 ^ 53"
  ultimately have m: "m = 9007199254740992" by simp
  show ?thesis
    unfolding m by (simp add: nearest_double_def)
qed

lemma to_Number_exact: "m \<le> 2 ^ 53 \<Longrightarrow> to_Number sign m = Num (sign * int m)"
proof -
  assume m: "m \<le> 2 ^ 53"
  have "(2::nat) ^ 53 < 2 ^ 1024" by simp
  with m have "\<not> 2 ^ 1024 \<le> m" by linarith
  with m show ?thesis by (simp add: to_Number_def nearest_double_exact)
qed

lemma parseInt_decimal:
  assumes ne: "s \<noteq> []" and digits: "list_all is_digit s" and small: "decimal_value s \<le> 2 ^ 53"
  shows "parseInt s = Num (int (decimal_value s))"
proof -
  from ne obtain c cs where s: "s = c # cs" by (cases s) auto
  with digits have c: "is_digit c" and cs: "list_all is_digit cs" by simp_all
  have drop: "dropWhile is_white_space s = s"
    using c by (simp add: s is_digit_not_space)
  have nosign: "hd s \<noteq> CHR ''+''" "hd s \<noteq> CHR ''-''"
    using is_digit_not_sign [OF c] by (simp_all add: s)
  have nohex: "take 2 s \<noteq> ''0x''" "take 2 s \<noteq> ''0X''"
    using cs not_digit_x by (cases cs; auto simp: s)+
  have all: "takeWhile (is_radix_digit 10) s = s"
    using digits by (simp add: list_all_iff is_digit_radix_10)
  have "to_Number 1 (decimal_value s) = Num (int (decimal_value s))"
    using to_Number_exact [OF small, of 1] by simp
  then show ?thesis
    using ne by (simp add: parseInt_def Let_def drop nosign nohex all
        radix_value_decimal [OF digits])
qed

lemma or_null_None: "or_null v = None \<longleftrightarrow> v = NaN \<or> v = Num 0"
  by (auto simp: or_null_def truthy_def split: number.splits)

lemma or_null_Some: "or_null v \<noteq> None \<Longrightarrow> or_null v = Some v"
  by (simp add: or_null_def split: if_splits)

lemma or_null_zero: "or_null (Num 0) = None"
  by (simp add: or_null_def truthy_def)

lemma parseInt_abc: "parseInt ''abc'' = NaN"
  by (simp add: parseInt_def is_white_space_def is_radix_digit_def digit_of_def)

text \<open>Beyond \<open>2^53\<close> the result is the nearest double, and an infinity from \<open>2^1024\<close> on.\<close>

lemma parseInt_rounds:
  "parseInt ''9007199254740993'' = Num 9007199254740992"
  by (simp add: parseInt_def is_white_space_def is_radix_digit_def digit_of_def
        radix_value_def to_Number_def nearest_double_def)


section \<open>The claims on the metadata fetcher\<close>




text \<open>
  Claim C8, as the code has it. An accepted response always yields a record, whatever its
  year string. The year of the record is \<open>parseInt(data.year) || null\<close>: it is null exactly
  when \<open>parseInt\<close> gives \<open>NaN\<close> or zero, and the parsed number otherwise. On a string of
  decimal digits whose value is at most \<open>2^53\<close>, \<open>parseInt\<close> gives its decimal value. The
  year string \<open>abc\<close> yields null.
\<close>

theorem year_is_parsed_or_null:
  assumes "get (SEMANTIC_SCHOLAR_API_URL @ ''/paper/'' @ i) = Resolved response"
    and "g response" and "data response = PaperData d"
  shows "\<exists>p. getPaper g get i = Inr (Some p) \<and>
           (year p = None \<longleftrightarrow>
              parseInt (S2ApiPaper.year d) = NaN \<or> parseInt (S2ApiPaper.year d) = Num 0) \<and>
           (year p \<noteq> None \<longrightarrow> year p = Some (parseInt (S2ApiPaper.year d))) \<and>
           (S2ApiPaper.year d \<noteq> [] \<and> list_all is_digit (S2ApiPaper.year d) \<and>
            decimal_value (S2ApiPaper.year d) \<le> 2 ^ 53 \<longrightarrow>
              parseInt (S2ApiPaper.year d) = Num (int (decimal_value (S2ApiPaper.year d)))) \<and>
           (S2ApiPaper.year d = ''abc'' \<longrightarrow> year p = None)"
proof -
  let ?y = "parseInt (S2ApiPaper.year d)"
  let ?p = "\<lparr>s2Id = i,
            title = S2ApiPaper.title d,
            authors = comma_separated (map name (S2ApiPaper.authors d)),
            abstract = S2ApiPaper.abstract d,
            url = S2ApiPaper.url d,
            venue = S2ApiPaper.venue d,
            year = or_null ?y\<rparr>"
  have f1: "getPaper g get i = Inr (Some ?p)"
    by (rule getPaper_resolved [where get = get and i = i and g = g, OF assms])
  have f2: "year ?p = None \<longleftrightarrow> ?y = NaN \<or> ?y = Num 0"
    by (simp add: or_null_None)
  have f3: "year ?p \<noteq> None \<longrightarrow> year ?p = Some ?y"
    using or_null_Some [of ?y] by simp
  have f4: "S2ApiPaper.year d \<noteq> [] \<and> list_all is_digit (S2ApiPaper.year d) \<and>
            decimal_value (S2ApiPaper.year d) \<le> 2 ^ 53 \<longrightarrow>
              ?y = Num (int (decimal_value (S2ApiPaper.year d)))"
    by (simp add: parseInt_decimal)
  have f5: "S2ApiPaper.year d = ''abc'' \<longrightarrow> year ?p = None"
    by (simp add: or_null_None parseInt_abc)
  show ?thesis
    by (intro exI [of _ ?p] conjI f1 f2 f3 f4 f5)
qed

theorem year_is_parsed_or_null_witness:
  "\<exists>p. getPaper sample_guard (sample_network ''2019'' 0) ''A'' = Inr (Some p) \<and>
        year p = Some (Num 2019)"
proof -
  have sent: "sample_network ''2019'' 0 (SEMANTIC_SCHOLAR_API_URL @ ''/paper/'' @ ''A'')
        = Resolved \<lparr>status = 200, data = PaperData (sample_data ''2019'')\<rparr>"
    by (simp add: sample_network_def)
  have accepted: "sample_guard \<lparr>status = 200, data = PaperData (sample_data ''2019'')\<rparr>"
    by (simp add: sample_guard_def)
  have payload: "data \<lparr>status = 200, data = PaperData (sample_data ''2019'')\<rparr>
                 = PaperData (sample_data ''2019'')"
    by simp
  from year_is_parsed_or_null
      [where get = "sample_network ''2019'' 0" and i = "''A''" and g = sample_guard
         and d = "sample_data ''2019''", OF sent accepted payload]
  obtain p where
    p: "getPaper sample_guard (sample_network ''2019'' 0) ''A'' = Inr (Some p)"
    and null: "year p = None \<longleftrightarrow>
          parseInt (S2ApiPaper.year (sample_data ''2019'')) = NaN \<or>
          parseInt (S2ApiPaper.year (sample_data ''2019'')) = Num 0"
    and some: "year p \<noteq> None \<longrightarrow>
          year p = Some (parseInt (S2ApiPaper.year (sample_data ''2019'')))"
    and decimal: "S2ApiPaper.year (sample_data ''2019'') \<noteq> [] \<and>
          list_all is_digit (S2ApiPaper.year (sample_data ''2019'')) \<and>
          decimal_value (S2ApiPaper.year (sample_data ''2019'')) \<le> 2 ^ 53 \<longrightarrow>
          parseInt (S2ApiPaper.year (sample_data ''2019''))
            = Num (int (decimal_value (S2ApiPaper.year (sample_data ''2019''))))"
    by (elim exE conjE)
  have y: "S2ApiPaper.year (sample_data ''2019'') = ''2019''"
    by (simp add: sample_data_def)
  have "parseInt ''2019'' = Num 2019"
    using decimal by (simp add: y is_digit_def decimal_value_def)
  with null some y have "year p = Some (Num 2019)" by simp
  with p show ?thesis by blast
qed

text \<open>
  Claim C8, as stated, fails: the year string \<open>0\<close> parses to the integer zero, and the
  record's year is null.
\<close>

theorem year_zero_counterexample:
  "parseInt ''0'' = Num 0 \<and>
   getPaper sample_guard
     (sample_network ''0'' 0) ''A''
   = Inr (Some \<lparr>s2Id = ''A'', title = ''T'', authors = ''A. Author, B. Writer'',
                 abstract = None, url = ''u'', venue = Some ''V'', year = None\<rparr>)"
  by (simp add: parseInt_def is_white_space_def is_radix_digit_def digit_of_def
        radix_value_def to_Number_def nearest_double_def getPaper_def sample_guard_def
        sample_data_def sample_network_def or_null_def truthy_def join_def)

text \<open>
  Claim C9. For an accepted response, the \<open>authors\<close> of the record are the names of the
  payload's authors in their order, with a comma and a space between neighbours.
\<close>

theorem authors_joined_by_comma_and_space:
  assumes "get (SEMANTIC_SCHOLAR_API_URL @ ''/paper/'' @ i) = Resolved response"
    and "g response" and "data response = PaperData d"
  shows "\<exists>p. getPaper g get i = Inr (Some p) \<and>
           authors p = comma_separated (map name (S2ApiPaper.authors d))"
proof -
  let ?p = "\<lparr>s2Id = i,
            title = S2ApiPaper.title d,
            authors = comma_separated (map name (S2ApiPaper.authors d)),
            abstract = S2ApiPaper.abstract d,
            url = S2ApiPaper.url d,
            venue = S2ApiPaper.venue d,
            year = or_null (parseInt (S2ApiPaper.year d))\<rparr>"
  have f1: "getPaper g get i = Inr (Some ?p)"
    by (rule getPaper_resolved [where get = get and i = i and g = g, OF assms])
  have f2: "authors ?p = comma_separated (map name (S2ApiPaper.authors d))"
    by simp
  show ?thesis
    by (intro exI [of _ ?p] conjI f1 f2)
qed

theorem authors_joined_by_comma_and_space_witness:
  "\<exists>p. getPaper sample_guard (sample_network ''2019'' 0) ''A'' = Inr (Some p) \<and>
        authors p = ''A. Author, B. Writer''"
proof -
  have "sample_network ''2019'' 0 (SEMANTIC_SCHOLAR_API_URL @ ''/paper/'' @ ''A'')
        = Resolved \<lparr>status = 200, data = PaperData (sample_data ''2019'')\<rparr>"
    by (simp add: sample_network_def)
  moreover have "sample_guard \<lparr>status = 200, data = PaperData (sample_data ''2019'')\<rparr>"
    by (simp add: sample_guard_def)
  moreover have "data \<lparr>status = 200, data = PaperData (sample_data ''2019'')\<rparr>
                 = PaperData (sample_data ''2019'')"
    by simp
  ultimately have "\<exists>p. getPaper sample_guard (sample_network ''2019'' 0) ''A'' = Inr (Some p) \<and>
      authors p = comma_separated (map name (S2ApiPaper.authors (sample_data ''2019'')))"
    by (rule authors_joined_by_comma_and_space)
  then show ?thesis by (simp add: sample_data_def)
qed

text \<open>
  Claim C10. \<open>getPapers\<close> returns under the contract of the type guard, and whenever it
  returns, the identifiers of the returned records are the identifiers of the resolved
  requests in the order of the input list: each record has the \<open>s2Id\<close> it was requested
  for, and the records follow the relative order of the input.
\<close>

theorem papers_in_request_order:
  "(type_guard g \<longrightarrow> (\<exists>found. getPapers g net ids = Inr found)) \<and>
   (getPapers g net ids = Inr found \<longrightarrow>
      None \<notin> set found \<and>
      map (\<lambda>p. s2Id (the p)) found
        = map snd (filter (\<lambda>(i, s2Id'). resolves g (net i) s2Id') (enumerate 0 ids)) \<and>
      subseq (map (\<lambda>p. s2Id (the p)) found) ids)"
proof (intro conjI impI)
  assume "type_guard g"
  then show "\<exists>found. getPapers g net ids = Inr found" by (rule getPapers_type_guard)
next
  assume a: "getPapers g net ids = Inr found"
  from getPapers_Inr [OF a] obtain results where
    results: "map (request g net) (enumerate 0 ids) = map Inr results"
    and filt: "found = filter (\<lambda>paper. paper \<noteq> None) results" by blast
  show "None \<notin> set found" by (simp add: filt)
  show order: "map (\<lambda>p. s2Id (the p)) found
        = map snd (filter (\<lambda>(i, s2Id'). resolves g (net i) s2Id') (enumerate 0 ids))"
    using results_in_request_order [OF results] by (simp only: filt)
  have "subseq (map snd (filter (\<lambda>(i, s2Id'). resolves g (net i) s2Id') (enumerate 0 ids)))
          (map snd (enumerate 0 ids))"
    by (intro subseq_map subseq_filter_left)
  then show "subseq (map (\<lambda>p. s2Id (the p)) found) ids"
    by (simp add: order)
qed

theorem papers_in_request_order_witness:
  "map (\<lambda>p. s2Id (the p))
     [Some \<lparr>s2Id = ''A'', title = ''T'', authors = ''A. Author, B. Writer'',
            abstract = None, url = ''u'', venue = Some ''V'', year = Some (Num 2019)\<rparr>,
      Some \<lparr>s2Id = ''D'', title = ''T'', authors = ''A. Author, B. Writer'',
            abstract = None, url = ''u'', venue = Some ''V'', year = Some (Num 2019)\<rparr>]
   = [''A'', ''D''] \<and>
   subseq [''A'', ''D''] [''A'', ''B'', ''C'', ''D'']"
proof -
  have run: "getPapers sample_guard (sample_network ''2019'') [''A'', ''B'', ''C'', ''D'']
     = Inr [Some \<lparr>s2Id = ''A'', title = ''T'', authors = ''A. Author, B. Writer'',
                  abstract = None, url = ''u'', venue = Some ''V'', year = Some (Num 2019)\<rparr>,
            Some \<lparr>s2Id = ''D'', title = ''T'', authors = ''A. Author, B. Writer'',
                  abstract = None, url = ''u'', venue = Some ''V'', year = Some (Num 2019)\<rparr>]"
    by (simp add: getPapers_def getPaper_def sample_guard_def sample_network_def
          sample_data_def enumerate_eq_zip upt_rec [of 0] upt_rec [of 1] upt_rec [of 2]
          upt_rec [of 3] parseInt_def is_white_space_def is_radix_digit_def digit_of_def
          radix_value_def to_Number_def nearest_double_def or_null_def truthy_def join_def)
  from papers_in_request_order
    [of sample_guard "sample_network ''2019''" "[''A'', ''B'', ''C'', ''D'']"
        "[Some \<lparr>s2Id = ''A'', title = ''T'', authors = ''A. Author, B. Writer'',
                  abstract = None, url = ''u'', venue = Some ''V'', year = Some (Num 2019)\<rparr>,
            Some \<lparr>s2Id = ''D'', title = ''T'', authors = ''A. Author, B. Writer'',
                  abstract = None, url = ''u'', venue = Some ''V'', year = Some (Num 2019)\<rparr>]"]
    run
  show ?thesis by simp
qed

end
